theory Spec2Isabelle
  imports Complex_Main
begin

section \<open>Disk monitor: data model\<close>

text \<open>
  The repository holds a console script (\<^verbatim>\<open>disk_monitor.py\<close>) and a Tkinter front end
  (\<^verbatim>\<open>disk_monitor_gui.py\<close>). Both enumerate the live processes with
  \<^verbatim>\<open>psutil.process_iter(['pid', 'name'])\<close> and read each process's cumulative I/O
  counters with \<^verbatim>\<open>proc.io_counters()\<close>.

  Conventions of the embedding:
  \<^item> Python's unbounded \<^verbatim>\<open>int\<close> is \<^typ>\<open>int\<close>.
  \<^item> Python's \<^verbatim>\<open>float\<close> is \<^typ>\<open>real\<close>: sums and quotients are exact here, rounding
    is not modelled.
  \<^item> A \<^verbatim>\<open>dict\<close> whose iteration order reaches the output is an association list in
    insertion order with distinct keys; a \<^verbatim>\<open>dict\<close> that is only looked up is a map.
  \<^item> What the operating system and the user supply (process lists, counter values, clock
    readings, the text of the entry fields) is an argument of the function that reads it.
\<close>

subsection \<open>What psutil hands to the program\<close>

text \<open>
  \<^verbatim>\<open>proc.io_counters()\<close> returns a tuple with \<^verbatim>\<open>read_bytes\<close> and \<^verbatim>\<open>write_bytes\<close>, or raises.
  The two exceptions the source names in its \<^verbatim>\<open>except\<close> clauses are constructors of the
  result. (The \<^verbatim>\<open>getattr(io, 'read_bytes', 0)\<close> default of the front end never applies to
  a psutil tuple, which always has both fields.)
\<close>

datatype io_result = Pio int int | NoSuchProcess | AccessDenied

text \<open>
  One element of \<^verbatim>\<open>process_iter(['pid', 'name'])\<close>: \<^verbatim>\<open>proc.info['pid']\<close>,
  \<^verbatim>\<open>proc.info['name']\<close> (\<^verbatim>\<open>None\<close> when psutil could not read the name) and the outcome of
  \<^verbatim>\<open>proc.io_counters()\<close> for it.
\<close>

datatype proc = Proc (info_pid: int) (info_name: "string option") (io_counters: io_result)

subsection \<open>Insertion-ordered dictionaries\<close>

type_synonym ('k, 'v) dict = "('k \<times> 'v) list"

definition keys :: "('k, 'v) dict \<Rightarrow> 'k list" where
  "keys d = map fst d"

text \<open>\<^verbatim>\<open>defaultdict.__getitem__\<close>: a missing key is inserted, at the end, with the default.\<close>

definition missing :: "'v \<Rightarrow> 'k \<Rightarrow> ('k, 'v) dict \<Rightarrow> ('k, 'v) dict" where
  "missing dflt k d = (if k \<in> set (keys d) then d else d @ [(k, dflt)])"

text \<open>In-place change of the value stored under a key; the key keeps its position.\<close>

fun modify :: "'k \<Rightarrow> ('v \<Rightarrow> 'v) \<Rightarrow> ('k, 'v) dict \<Rightarrow> ('k, 'v) dict" where
  "modify k f [] = []"
| "modify k f (e # d) = (if fst e = k then (k, f (snd e)) # d else e # modify k f d)"

subsection \<open>Rendering a pid in a placeholder name\<close>

text \<open>\<^verbatim>\<open>f"pid:{pid}"\<close>: the decimal digits of the pid, with a sign when it is negative.\<close>

fun digits :: "nat \<Rightarrow> string" where
  "digits n = (if n < 10 then [''0123456789'' ! n]
               else digits (n div 10) @ [''0123456789'' ! (n mod 10)])"

declare digits.simps [simp del]

definition str :: "int \<Rightarrow> string" where
  "str i = (if i < 0 then ''-'' @ digits (nat (- i)) else digits (nat i))"

section \<open>The background worker's sampling loop (\<^verbatim>\<open>DiskMonitorWorker.run\<close>)\<close>

text \<open>
  The values of the \<^verbatim>\<open>totals\<close> dictionary are dictionaries with the two keys
  \<^verbatim>\<open>'read_bytes'\<close> and \<^verbatim>\<open>'write_bytes'\<close>, both floats (they start at \<^verbatim>\<open>0.0\<close>).
\<close>

record io =
  read_bytes :: real
  write_bytes :: real

type_synonym SampleResult = "(int \<times> string, io) dict"

text \<open>The two local variables of \<^verbatim>\<open>run\<close> that the loop updates.\<close>

record run_vars =
  prev_io :: "int \<rightharpoonup> int \<times> int"
  totals :: "(int \<times> string, io) dict"

definition default_io :: io where
  "default_io = \<lparr>read_bytes = 0, write_bytes = 0\<rparr>"

text \<open>\<^verbatim>\<open>totals[key]['read_bytes'] += delta\<close> on the \<^verbatim>\<open>defaultdict\<close>.\<close>

definition add_read_bytes :: "int \<times> string \<Rightarrow> int \<Rightarrow> SampleResult \<Rightarrow> SampleResult" where
  "add_read_bytes key delta t =
     modify key (\<lambda>e. e\<lparr>read_bytes := read_bytes e + of_int delta\<rparr>) (missing default_io key t)"

definition add_write_bytes :: "int \<times> string \<Rightarrow> int \<Rightarrow> SampleResult \<Rightarrow> SampleResult" where
  "add_write_bytes key delta t =
     modify key (\<lambda>e. e\<lparr>write_bytes := write_bytes e + of_int delta\<rparr>) (missing default_io key t)"

text \<open>\<^verbatim>\<open>proc.info.get('name') or f"pid:{pid}"\<close>: \<^verbatim>\<open>None\<close> and the empty string are falsy.\<close>

definition display_name :: "proc \<Rightarrow> string" where
  "display_name p =
     (case info_name p of
        None \<Rightarrow> ''pid:'' @ str (info_pid p)
      | Some n \<Rightarrow> if n = [] then ''pid:'' @ str (info_pid p) else n)"

text \<open>
  The body of the \<^verbatim>\<open>for proc in psutil.process_iter(...)\<close> loop, lines 63 to 85, for one
  process. Each \<^verbatim>\<open>continue\<close> is a branch that returns the variables as they are at that
  point.
\<close>

definition sample_proc :: "proc \<Rightarrow> run_vars \<Rightarrow> run_vars" where
  "sample_proc p v =
     (let pid = info_pid p; name = display_name p in
      case io_counters p of
        NoSuchProcess \<Rightarrow> v
      | AccessDenied \<Rightarrow> v
      | Pio read write \<Rightarrow>
          (case prev_io v pid of
             None \<Rightarrow> v\<lparr>prev_io := (prev_io v)(pid \<mapsto> (read, write))\<rparr>
           | Some prev \<Rightarrow>
               let delta_read = max 0 (read - fst prev);
                   delta_write = max 0 (write - snd prev);
                   key = (pid, name)
               in v\<lparr>totals := add_write_bytes key delta_write
                                 (add_read_bytes key delta_read (totals v)),
                     prev_io := (prev_io v)(pid \<mapsto> (read, write))\<rparr>))"

text \<open>One pass of the \<^verbatim>\<open>for\<close> loop over the processes of one tick.\<close>

definition tick :: "proc list \<Rightarrow> run_vars \<Rightarrow> run_vars" where
  "tick procs v = fold sample_proc procs v"

text \<open>
  One evaluation of the \<^verbatim>\<open>while\<close> condition and, when it holds, of the loop body: the
  reading of \<^verbatim>\<open>time.time()\<close>, the value of \<^verbatim>\<open>self.stopped()\<close> at that moment, and the
  processes that \<^verbatim>\<open>process_iter\<close> yields.
\<close>

datatype iteration = Iteration (clock: real) (stop_seen: bool) (process_iter: "proc list")

text \<open>
  The \<^verbatim>\<open>while time.time() < end_time and not self.stopped()\<close> loop over the iterations the
  environment supplies. The loop has returned when the condition was found false; a list
  that ends while the condition still holds is a run that has not returned yet
  (\<open>None\<close>).
\<close>

fun sample_loop :: "real \<Rightarrow> iteration list \<Rightarrow> run_vars \<Rightarrow> run_vars option" where
  "sample_loop end_time [] v = None"
| "sample_loop end_time (it # its) v =
     (if clock it < end_time \<and> \<not> stop_seen it
      then sample_loop end_time its (tick (process_iter it) v)
      else Some v)"

text \<open>Lines 91 to 93: the copy of \<^verbatim>\<open>totals\<close> into a plain dictionary, entry by entry.\<close>

definition convert :: "SampleResult \<Rightarrow> SampleResult" where
  "convert t =
     fold (\<lambda>(key, e) out. modify key (\<lambda>_. \<lparr>read_bytes = read_bytes e, write_bytes = write_bytes e\<rparr>)
                           (missing default_io key out)) t []"

definition init_vars :: run_vars where
  "init_vars = \<lparr>prev_io = Map.empty, totals = []\<rparr>"

text \<open>
  \<^verbatim>\<open>run\<close>: \<open>start\<close> is the reading of \<^verbatim>\<open>time.time()\<close> on entry. The result is what the
  worker puts into \<^verbatim>\<open>out_queue\<close>. The parameters \<open>interval\<close> (the length of the sleep) and
  \<open>top_n\<close> are those of the constructor.
\<close>

definition run :: "int \<Rightarrow> real \<Rightarrow> int \<Rightarrow> real \<Rightarrow> iteration list \<Rightarrow> SampleResult option" where
  "run duration interval top_n start its =
     map_option (\<lambda>v. convert (totals v)) (sample_loop (start + of_int duration) its init_vars)"

text \<open>
  Reading the accumulated entry of a key, with the \<^verbatim>\<open>defaultdict\<close>'s default for a key
  that has no entry yet.
\<close>

definition entry :: "SampleResult \<Rightarrow> int \<times> string \<Rightarrow> io" where
  "entry t key = (case map_of t key of None \<Rightarrow> default_io | Some e \<Rightarrow> e)"

section \<open>The worker as a thread\<close>

text \<open>
  The front end calls \<^verbatim>\<open>stop\<close> and \<^verbatim>\<open>is_alive\<close> on the worker while \<^verbatim>\<open>run\<close> executes in its
  own thread, so the worker object also carries where \<^verbatim>\<open>run\<close> stands: before its first
  statement, at the \<^verbatim>\<open>while\<close> condition, inside the \<^verbatim>\<open>for\<close> loop with the processes still
  to visit, or returned.
\<close>

datatype phase = Starting | LoopCheck | InTick "proc list" | Finished

text \<open>
  The attributes that \<^verbatim>\<open>__init__\<close> sets (\<open>stop_event\<close> is whether \<^verbatim>\<open>_stop_event\<close> is set), the
  control point of \<^verbatim>\<open>run\<close>, and the locals of \<^verbatim>\<open>run\<close>. The \<^verbatim>\<open>out_queue\<close> is passed along with
  the worker, since the front end holds the same queue.
\<close>

record DiskMonitorWorker =
  duration :: int
  interval :: real
  top_n :: int
  stop_event :: bool
  phase :: phase
  end_time :: real
  vars :: run_vars

definition stop :: "DiskMonitorWorker \<Rightarrow> DiskMonitorWorker" where
  "stop w = w\<lparr>stop_event := True\<rparr>"

definition stopped :: "DiskMonitorWorker \<Rightarrow> bool" where
  "stopped w = stop_event w"

text \<open>\<^verbatim>\<open>Thread.is_alive\<close>: from \<^verbatim>\<open>start()\<close> until \<^verbatim>\<open>run\<close> has returned.\<close>

definition is_alive :: "DiskMonitorWorker \<Rightarrow> bool" where
  "is_alive w = (phase w \<noteq> Finished)"

text \<open>
  One step of the worker thread on the worker object and the queue it was given.
  \<open>t\<close> is the reading of \<^verbatim>\<open>time.time()\<close> and \<open>procs\<close> the result of \<^verbatim>\<open>process_iter\<close>,
  should the step need them. The steps are: the statements before the loop; one
  evaluation of the \<^verbatim>\<open>while\<close> condition, which either enters the \<^verbatim>\<open>for\<close> loop or leaves
  the loop, builds \<^verbatim>\<open>out\<close> and puts it into the queue; one process of the \<^verbatim>\<open>for\<close> loop;
  the \<^verbatim>\<open>time.sleep(self.interval)\<close> after the last process.
\<close>

definition worker_step ::
  "real \<Rightarrow> proc list \<Rightarrow> DiskMonitorWorker \<times> SampleResult list
     \<Rightarrow> DiskMonitorWorker \<times> SampleResult list" where
  "worker_step t procs s =
     (let w = fst s; out_queue = snd s in
      case phase w of
        Starting \<Rightarrow>
          (w\<lparr>vars := init_vars, end_time := t + of_int (duration w), phase := LoopCheck\<rparr>,
           out_queue)
      | LoopCheck \<Rightarrow>
          if t < end_time w \<and> \<not> stopped w then (w\<lparr>phase := InTick procs\<rparr>, out_queue)
          else (w\<lparr>phase := Finished\<rparr>, out_queue @ [convert (totals (vars w))])
      | InTick ps \<Rightarrow>
          (case ps of
             [] \<Rightarrow> (w\<lparr>phase := LoopCheck\<rparr>, out_queue)
           | p # ps' \<Rightarrow> (w\<lparr>vars := sample_proc p (vars w), phase := InTick ps'\<rparr>, out_queue))
      | Finished \<Rightarrow> (w, out_queue))"

text \<open>Several steps of the thread, each with its own clock reading and process list.\<close>

fun worker_steps ::
  "(real \<times> proc list) list \<Rightarrow> DiskMonitorWorker \<times> SampleResult list
     \<Rightarrow> DiskMonitorWorker \<times> SampleResult list" where
  "worker_steps [] s = s"
| "worker_steps (e # es) s = worker_steps es (worker_step (fst e) (snd e) s)"

section \<open>The front end (\<^verbatim>\<open>DiskMonitorGUI\<close>)\<close>

datatype button_state = NORMAL | DISABLED

text \<open>The texts of the status line; the numbers are those formatted into the text.\<close>

datatype status =
    StatusIdle
  | StatusStarting
  | StatusMonitoring int real
  | StatusStopping
  | StatusDone nat

text \<open>A row of the table: \<^verbatim>\<open>(pid, name, read_mb, write_mb, total_mb)\<close>.\<close>

type_synonym row = "int \<times> string \<times> real \<times> real \<times> real"


fun total_mb :: "row \<Rightarrow> real" where
  "total_mb (pid, name, read_mb, write_mb, t) = t"

text \<open>
  The fields of the object. A Tk variable holds what \<^verbatim>\<open>get()\<close> returns for the text of its
  entry field, or \<open>None\<close> when that text is not a number and \<^verbatim>\<open>get()\<close> raises \<^verbatim>\<open>TclError\<close>.
  \<open>tree\<close> holds the inserted rows (before their formatting to two decimals),
  \<open>last_result\<close> is \<open>None\<close> until the attribute \<^verbatim>\<open>_last_result\<close> is first assigned, and
  \<open>poll_scheduled\<close> says whether a call of \<^verbatim>\<open>_periodic_poll\<close> is pending with
  \<^verbatim>\<open>root.after\<close>.

  The worker receives \<^verbatim>\<open>self.result_queue\<close> as its \<^verbatim>\<open>out_queue\<close>, and both are assigned
  only in \<^verbatim>\<open>start_monitor\<close>, together: the queue of a live worker is the front end's
  \<open>result_queue\<close>.
\<close>

record DiskMonitorGUI =
  duration_var :: "int option"
  interval_var :: "real option"
  top_var :: "int option"
  start_button :: button_state
  stop_button :: button_state
  export_button :: button_state
  tree :: "row list"
  status_var :: status
  worker :: "DiskMonitorWorker option"
  result_queue :: "SampleResult list"
  last_result :: "row list option"
  poll_scheduled :: bool

text \<open>How a method of the front end ends: it returns, returns after a dialog, or raises.\<close>

datatype outcome = Returned | Showinfo string string | Raised_TclError

text \<open>\<^verbatim>\<open>__init__\<close> with \<^verbatim>\<open>_build_controls\<close> and \<^verbatim>\<open>_build_table\<close>.\<close>

definition init_gui :: DiskMonitorGUI where
  "init_gui =
     \<lparr>duration_var = Some 30, interval_var = Some 1, top_var = Some 15,
      start_button = NORMAL, stop_button = DISABLED, export_button = DISABLED,
      tree = [], status_var = StatusIdle, worker = None, result_queue = [],
      last_result = None, poll_scheduled = True\<rparr>"

text \<open>
  The worker object after \<^verbatim>\<open>DiskMonitorWorker(...)\<close> and \<^verbatim>\<open>start()\<close>. \<open>end_time\<close> and \<open>vars\<close>
  are locals of \<^verbatim>\<open>run\<close> and get their values in the thread's first step.
\<close>

definition new_worker :: "int \<Rightarrow> real \<Rightarrow> int \<Rightarrow> DiskMonitorWorker" where
  "new_worker d i n =
     \<lparr>duration = d, interval = i, top_n = n, stop_event = False, phase = Starting,
      end_time = 0, vars = init_vars\<rparr>"

definition running :: "DiskMonitorGUI \<Rightarrow> bool" where
  "running g = (case worker g of None \<Rightarrow> False | Some w \<Rightarrow> is_alive w)"

text \<open>
  \<^verbatim>\<open>start_monitor\<close>. The three \<^verbatim>\<open>get()\<close> calls come before any assignment, so a \<^verbatim>\<open>TclError\<close>
  leaves the object as it was. The status text \<^verbatim>\<open>"Starting..."\<close> is overwritten before the
  method returns.
\<close>

definition start_monitor :: "DiskMonitorGUI \<Rightarrow> outcome \<times> DiskMonitorGUI" where
  "start_monitor g =
     (if running g then (Showinfo ''Disk Monitor'' ''Monitoring already in progress.'', g)
      else
        (case duration_var g of
           None \<Rightarrow> (Raised_TclError, g)
         | Some dv \<Rightarrow>
             (case interval_var g of
                None \<Rightarrow> (Raised_TclError, g)
              | Some iv \<Rightarrow>
                  (case top_var g of
                     None \<Rightarrow> (Raised_TclError, g)
                   | Some tv \<Rightarrow>
                       let d = max 1 dv; i = max (1 / 10) iv; n = max 1 tv in
                       (Returned,
                        g\<lparr>start_button := DISABLED, stop_button := NORMAL,
                          export_button := DISABLED, tree := [], result_queue := [],
                          worker := Some (new_worker d i n),
                          status_var := StatusMonitoring d i\<rparr>)))))"

definition stop_monitor :: "DiskMonitorGUI \<Rightarrow> DiskMonitorGUI" where
  "stop_monitor g =
     (case worker g of
        None \<Rightarrow> g
      | Some w \<Rightarrow>
          if is_alive w
          then g\<lparr>worker := Some (stop w), status_var := StatusStopping, stop_button := DISABLED\<rparr>
          else g)"

text \<open>Lines 200 to 205: one row per entry of the result, in the order of the dictionary.\<close>

definition to_rows :: "SampleResult \<Rightarrow> row list" where
  "to_rows result =
     map (\<lambda>((pid, name), e).
            let read_mb = read_bytes e / (1024 * 1024);
                write_mb = write_bytes e / (1024 * 1024)
            in (pid, name, read_mb, write_mb, read_mb + write_mb)) result"

text \<open>
  \<^verbatim>\<open>rows.sort(key=lambda r: r[4], reverse=True)\<close>. Python's sort is stable, also with
  \<^verbatim>\<open>reverse=True\<close>: rows with equal keys keep their order. \<^const>\<open>sort_key\<close> is a stable
  ascending sort, so the descending one sorts by the negated key.
\<close>

definition sort_rows :: "row list \<Rightarrow> row list" where
  "sort_rows rows = sort_key (\<lambda>r. - total_mb r) rows"

text \<open>
  The slice \<^verbatim>\<open>xs[:n]\<close>: a negative \<open>n\<close> counts from the end, and a bound outside the
  list is clipped.
\<close>

definition slice_to :: "int \<Rightarrow> 'a list \<Rightarrow> 'a list" where
  "slice_to n xs = (if n < 0 then take (nat (int (length xs) + n)) xs else take (nat n) xs)"

definition displayed :: "SampleResult \<Rightarrow> int \<Rightarrow> row list" where
  "displayed result n = slice_to n (sort_rows (to_rows result))"

text \<open>
  \<^verbatim>\<open>_periodic_poll\<close>. \<^verbatim>\<open>get_nowait\<close> takes the oldest element of the queue. When
  \<^verbatim>\<open>self.top_var.get()\<close> raises, the result has already been taken from the queue and the
  statements after it, the next \<^verbatim>\<open>root.after\<close> among them, are not reached.
\<close>

definition periodic_poll :: "DiskMonitorGUI \<Rightarrow> outcome \<times> DiskMonitorGUI" where
  "periodic_poll g =
     (case result_queue g of
        [] \<Rightarrow> (Returned, g\<lparr>poll_scheduled := True\<rparr>)
      | result # rest \<Rightarrow>
          (case top_var g of
             None \<Rightarrow> (Raised_TclError, g\<lparr>result_queue := rest, poll_scheduled := False\<rparr>)
           | Some n \<Rightarrow>
               let shown = displayed result n in
               (Returned,
                g\<lparr>result_queue := rest, tree := tree g @ shown,
                  status_var := StatusDone (length shown),
                  start_button := NORMAL, stop_button := DISABLED, export_button := NORMAL,
                  last_result := Some shown, poll_scheduled := True\<rparr>)))"

section \<open>The console script (\<^verbatim>\<open>monitor_disk_activity\<close>)\<close>

text \<open>
  The values of \<^verbatim>\<open>process_io\<close>: dictionaries with the integer entries \<^verbatim>\<open>'read'\<close> and
  \<^verbatim>\<open>'write'\<close> (the fields \<open>c_read\<close> and \<open>c_write\<close>).
\<close>

record counters =
  c_read :: int
  c_write :: int

type_synonym process_io = "(string option, counters) dict"

definition default_counters :: counters where
  "default_counters = \<lparr>c_read = 0, c_write = 0\<rparr>"

text \<open>
  Lines 16 to 26 for one process. The key is \<^verbatim>\<open>proc.info['name']\<close> as psutil gives it,
  \<^verbatim>\<open>None\<close> included; the pid is read and not used.
\<close>

definition console_proc :: "proc \<Rightarrow> process_io \<Rightarrow> process_io" where
  "console_proc p d =
     (case io_counters p of
        NoSuchProcess \<Rightarrow> d
      | AccessDenied \<Rightarrow> d
      | Pio r w \<Rightarrow>
          let pid = info_pid p; name = info_name p;
              d1 = modify name (\<lambda>c. c\<lparr>c_read := c_read c + r\<rparr>) (missing default_counters name d)
          in modify name (\<lambda>c. c\<lparr>c_write := c_write c + w\<rparr>) (missing default_counters name d1))"

text \<open>
  The \<^verbatim>\<open>while time.time() - start_time < duration\<close> loop, with the clock reading and the
  process list of each iteration; the state is \<^verbatim>\<open>process_io\<close> and \<^verbatim>\<open>samples\<close>.
\<close>

fun console_loop ::
  "real \<Rightarrow> real \<Rightarrow> (real \<times> proc list) list \<Rightarrow> process_io \<times> nat \<Rightarrow> (process_io \<times> nat) option" where
  "console_loop start_time dur [] s = None"
| "console_loop start_time dur (it # its) s =
     (if fst it - start_time < dur
      then console_loop start_time dur its (fold console_proc (snd it) (fst s), snd s + 1)
      else Some s)"

text \<open>A printed line: \<^verbatim>\<open>name\<close>, \<^verbatim>\<open>read_mb\<close>, \<^verbatim>\<open>write_mb\<close>, \<^verbatim>\<open>total_mb\<close>.\<close>

type_synonym console_row = "string option \<times> real \<times> real \<times> real"

fun console_total_mb :: "console_row \<Rightarrow> real" where
  "console_total_mb (name, read_mb, write_mb, t) = t"

definition process_totals :: "process_io \<Rightarrow> console_row list" where
  "process_totals d =
     map (\<lambda>(name, c).
            let total = c_read c + c_write c
            in (name, of_int (c_read c) / (1024 * 1024), of_int (c_write c) / (1024 * 1024),
                of_int total / (1024 * 1024))) d"

text \<open>
  \<^verbatim>\<open>monitor_disk_activity\<close>: the rows that the table is printed from (the first 15 of the
  sorted totals) and the number of samples of the closing line. The formatting of the
  printed text is not modelled.
\<close>

definition monitor_disk_activity ::
  "real \<Rightarrow> real \<Rightarrow> real \<Rightarrow> (real \<times> proc list) list \<Rightarrow> (console_row list \<times> nat) option" where
  "monitor_disk_activity dur intv start_time its =
     map_option
       (\<lambda>s. (take 15 (sort_key (\<lambda>r. - console_total_mb r) (process_totals (fst s))), snd s))
       (console_loop start_time dur its ([], 0))"

section \<open>Notions used to state the properties\<close>

text \<open>A process whose counters could be read.\<close>

definition readable :: "proc \<Rightarrow> bool" where
  "readable p =
     (case io_counters p of Pio r w \<Rightarrow> True | NoSuchProcess \<Rightarrow> False | AccessDenied \<Rightarrow> False)"

text \<open>The key under which line 81 files a process: its pid and its display name.\<close>

definition identity :: "proc \<Rightarrow> int \<times> string" where
  "identity p = (info_pid p, display_name p)"

text \<open>The pid has a successful counter reading among the given processes.\<close>

definition seen :: "int \<Rightarrow> proc list \<Rightarrow> bool" where
  "seen pid ps = list_ex (\<lambda>p. info_pid p = pid \<and> readable p) ps"

text \<open>The iterations whose loop body ran: those before the first one that left the loop.\<close>

definition executed :: "real \<Rightarrow> iteration list \<Rightarrow> iteration list" where
  "executed e its = takeWhile (\<lambda>it. clock it < e \<and> \<not> stop_seen it) its"

text \<open>
  The identities (pid and display name) whose counters were read in some executed
  iteration, each once.
\<close>

definition observed_identities :: "real \<Rightarrow> iteration list \<Rightarrow> (int \<times> string) list" where
  "observed_identities e its =
     remdups (map (\<lambda>p. (info_pid p, display_name p))
                  (filter readable (concat (map process_iter (executed e its)))))"



text \<open>
  The identities that receive a delta, in the order of the readings: a process is read
  successfully whose pid already has a successful reading among the processes before it.
  \<open>ys\<close> are the processes visited so far.
\<close>

fun delta_identities :: "proc list \<Rightarrow> proc list \<Rightarrow> (int \<times> string) list" where
  "delta_identities ys [] = []"
| "delta_identities ys (p # zs) =
     (if readable p \<and> seen (info_pid p) ys then [identity p] else []) @ delta_identities (ys @ [p]) zs"

text \<open>
  The rows that one call of \<^verbatim>\<open>_periodic_poll\<close> inserts into the table: what the table holds
  after the call beyond what it held before.
\<close>

definition rows_inserted :: "DiskMonitorGUI \<Rightarrow> row list" where
  "rows_inserted g = drop (length (tree g)) (tree (snd (periodic_poll g)))"

section \<open>Facts about the dictionaries and the loop body\<close>

lemma set_keys_missing: "set (keys (missing d k t)) = insert k (set (keys t))"
  by (auto simp: missing_def keys_def)

lemma keys_modify: "keys (modify k f t) = keys t"
  by (induction t) (auto simp: keys_def)

lemma map_of_modify:
  "map_of (modify k f t) x = (if x = k then map_option f (map_of t k) else map_of t x)"
  by (induction t) auto

lemma map_of_missing:
  "map_of (missing d k t) x = (if x = k \<and> map_of t k = None then Some d else map_of t x)"
proof (cases "k \<in> set (keys t)")
  case True
  then have "map_of t k \<noteq> None" by (simp add: keys_def map_of_eq_None_iff)
  with True show ?thesis by (simp add: missing_def)
next
  case False
  then have "map_of t k = None" by (simp add: keys_def map_of_eq_None_iff)
  with False show ?thesis by (auto simp: missing_def map_add_def split: option.splits)
qed

lemma distinct_missing: "distinct (keys t) \<Longrightarrow> distinct (keys (missing d k t))"
  by (auto simp: missing_def keys_def)

lemma distinct_sample_proc:
  "distinct (keys (totals v)) \<Longrightarrow> distinct (keys (totals (sample_proc p v)))"
  by (auto simp: sample_proc_def Let_def add_read_bytes_def add_write_bytes_def keys_modify
      distinct_missing split: io_result.splits option.splits)

lemma distinct_tick: "distinct (keys (totals v)) \<Longrightarrow> distinct (keys (totals (tick ps v)))"
  unfolding tick_def by (induction ps arbitrary: v) (auto simp: distinct_sample_proc)

lemma distinct_sample_loop:
  "distinct (keys (totals v)) \<Longrightarrow> sample_loop e its v = Some v' \<Longrightarrow> distinct (keys (totals v'))"
proof (induction its arbitrary: v)
  case Nil
  then show ?case by simp
next
  case (Cons it its)
  show ?case
  proof (cases "clock it < e \<and> \<not> stop_seen it")
    case True
    with Cons.prems have "sample_loop e its (tick (process_iter it) v) = Some v'" by simp
    with distinct_tick[OF Cons.prems(1)] Cons.IH show ?thesis by blast
  next
    case False
    with Cons.prems show ?thesis by simp
  qed
qed

lemma fold_tick_concat: "fold tick ticks v = fold sample_proc (concat ticks) v"
  by (induction ticks arbitrary: v) (simp_all add: tick_def)

lemma sample_loop_executed:
  "sample_loop e its v = Some v' \<Longrightarrow> v' = fold tick (map process_iter (executed e its)) v"
  by (induction its arbitrary: v) (auto simp: executed_def split: if_splits)

subsection \<open>Accumulated entries\<close>

lemma entry_add_read_bytes:
  "entry (add_read_bytes k d t) x =
     (if x = k then (entry t k)\<lparr>read_bytes := read_bytes (entry t k) + of_int d\<rparr> else entry t x)"
  by (auto simp: entry_def add_read_bytes_def map_of_modify map_of_missing split: option.splits)

lemma entry_add_write_bytes:
  "entry (add_write_bytes k d t) x =
     (if x = k then (entry t k)\<lparr>write_bytes := write_bytes (entry t k) + of_int d\<rparr> else entry t x)"
  by (auto simp: entry_def add_write_bytes_def map_of_modify map_of_missing split: option.splits)

lemma entry_sample_proc:
  assumes "io_counters p = Pio r w" and "prev_io v (info_pid p) = Some (pr, pw)"
  shows "entry (totals (sample_proc p v)) (identity p) =
     \<lparr>read_bytes = read_bytes (entry (totals v) (identity p)) + of_int (max 0 (r - pr)),
      write_bytes = write_bytes (entry (totals v) (identity p)) + of_int (max 0 (w - pw))\<rparr>"
  using assms
  by (simp add: sample_proc_def Let_def entry_add_read_bytes entry_add_write_bytes identity_def)

lemma prev_io_sample_proc_read:
  "io_counters p = Pio r w \<Longrightarrow> prev_io (sample_proc p v) (info_pid p) = Some (r, w)"
  by (simp add: sample_proc_def Let_def split: option.splits)

lemma example_run:
  "run 30 1 15 0
     [Iteration 0 False [Proc pid nm (Pio 100 50)],
      Iteration 1 False [Proc pid nm (Pio 150 80)],
      Iteration 2 False [Proc pid nm (Pio 140 90)],
      Iteration 3 True []]
   = Some [(identity (Proc pid nm (Pio 140 90)), \<lparr>read_bytes = 50, write_bytes = 40\<rparr>)]"
  by (cases nm)
    (simp_all add: run_def tick_def sample_proc_def init_vars_def Let_def add_read_bytes_def
      add_write_bytes_def missing_def keys_def convert_def default_io_def identity_def
      display_name_def)

lemma example_rows:
  "map total_mb (to_rows [(k, \<lparr>read_bytes = 50, write_bytes = 40\<rparr>)]) = [90 / (1024 * 1024)]"
  by (cases k) (simp add: to_rows_def)

subsection \<open>The first reading of a pid\<close>

lemma prev_io_sample_proc:
  "\<not> (info_pid p = pid \<and> readable p) \<Longrightarrow> prev_io (sample_proc p v) pid = prev_io v pid"
  by (auto simp: sample_proc_def readable_def Let_def split: io_result.splits option.splits)

lemma prev_io_fold: "\<not> seen pid ps \<Longrightarrow> prev_io (fold sample_proc ps v) pid = prev_io v pid"
  by (induction ps arbitrary: v) (auto simp: seen_def prev_io_sample_proc)

lemma keys_sample_proc:
  "k \<in> set (keys (totals (sample_proc p v))) \<Longrightarrow>
     k \<in> set (keys (totals v)) \<or> (fst k = info_pid p \<and> readable p)"
  by (auto simp: sample_proc_def readable_def Let_def add_read_bytes_def add_write_bytes_def
      keys_modify set_keys_missing split: io_result.splits option.splits)

lemma keys_fold:
  "(pid, n) \<in> set (keys (totals (fold sample_proc ps v))) \<Longrightarrow>
     (pid, n) \<in> set (keys (totals v)) \<or> seen pid ps"
proof (induction ps arbitrary: v)
  case Nil
  then show ?case by simp
next
  case (Cons p ps)
  from Cons.IH[of "sample_proc p v"] Cons.prems
  have "(pid, n) \<in> set (keys (totals (sample_proc p v))) \<or> seen pid ps" by simp
  then show ?case using keys_sample_proc[of "(pid, n)" p v] by (auto simp: seen_def)
qed

subsection \<open>One pid at a time\<close>

lemma sample_proc_other_pid:
  "info_pid p \<noteq> pid \<Longrightarrow>
     prev_io (sample_proc p v) pid = prev_io v pid
   \<and> map_of (totals (sample_proc p v)) (pid, n) = map_of (totals v) (pid, n)"
  by (auto simp: sample_proc_def Let_def add_read_bytes_def add_write_bytes_def map_of_modify
      map_of_missing split: io_result.splits option.splits)

lemma sample_proc_same_pid:
  "prev_io v pid = prev_io v' pid \<Longrightarrow>
   (\<forall>n. map_of (totals v) (pid, n) = map_of (totals v') (pid, n)) \<Longrightarrow>
   info_pid p = pid \<Longrightarrow>
     prev_io (sample_proc p v) pid = prev_io (sample_proc p v') pid
   \<and> (\<forall>n. map_of (totals (sample_proc p v)) (pid, n) = map_of (totals (sample_proc p v')) (pid, n))"
  by (auto simp: sample_proc_def Let_def add_read_bytes_def add_write_bytes_def map_of_modify
      map_of_missing split: io_result.splits option.splits)

lemma fold_sample_proc_pid:
  "prev_io v pid = prev_io v' pid \<Longrightarrow>
   (\<forall>n. map_of (totals v) (pid, n) = map_of (totals v') (pid, n)) \<Longrightarrow>
     prev_io (fold sample_proc ps v) pid
       = prev_io (fold sample_proc (filter (\<lambda>p. info_pid p = pid) ps) v') pid
   \<and> (\<forall>n. map_of (totals (fold sample_proc ps v)) (pid, n)
          = map_of (totals (fold sample_proc (filter (\<lambda>p. info_pid p = pid) ps) v')) (pid, n))"
proof (induction ps arbitrary: v v')
  case Nil
  then show ?case by simp
next
  case (Cons p ps)
  show ?case
  proof (cases "info_pid p = pid")
    case True
    from sample_proc_same_pid[OF Cons.prems True]
      Cons.IH[of "sample_proc p v" "sample_proc p v'"] True
    show ?thesis by simp
  next
    case False
    from sample_proc_other_pid[OF False, of v] Cons.prems Cons.IH[of "sample_proc p v" v'] False
    show ?thesis by simp
  qed
qed

subsection \<open>Unreadable processes\<close>

lemma readable_iff: "(\<not> readable p) = (io_counters p = NoSuchProcess \<or> io_counters p = AccessDenied)"
  by (simp add: readable_def split: io_result.splits)

lemma sample_proc_unreadable: "\<not> readable p \<Longrightarrow> sample_proc p v = v"
  by (simp add: sample_proc_def readable_def Let_def split: io_result.splits)

lemma console_proc_unreadable: "\<not> readable p \<Longrightarrow> console_proc p d = d"
  by (simp add: console_proc_def readable_def split: io_result.splits)

lemma tick_skip: "\<not> readable p \<Longrightarrow> tick (ps @ p # qs) v = tick (ps @ qs) v"
  by (simp add: tick_def sample_proc_unreadable)

lemma sample_loop_skip:
  "\<not> readable p \<Longrightarrow>
     sample_loop e (its @ Iteration t s (ps @ p # qs) # its') v =
     sample_loop e (its @ Iteration t s (ps @ qs) # its') v"
  by (induction its arbitrary: v) (simp_all add: tick_skip)

lemma console_loop_skip:
  "\<not> readable p \<Longrightarrow>
     console_loop st dur (its @ (t, ps @ p # qs) # its') c =
     console_loop st dur (its @ (t, ps @ qs) # its') c"
  by (induction its arbitrary: c) (simp_all add: console_proc_unreadable)

subsection \<open>The delivered dictionary\<close>

lemma modify_append_new:
  "k \<notin> set (keys acc) \<Longrightarrow> modify k f (acc @ [(k, d)]) = acc @ [(k, f d)]"
  by (induction acc) (auto simp: keys_def)

lemma convert_fold:
  "distinct (keys t) \<Longrightarrow> set (keys t) \<inter> set (keys acc) = {} \<Longrightarrow>
   fold (\<lambda>(key, e) out. modify key (\<lambda>_. \<lparr>read_bytes = read_bytes e, write_bytes = write_bytes e\<rparr>)
          (missing default_io key out)) t acc = acc @ t"
proof (induction t arbitrary: acc)
  case Nil
  then show ?case by simp
next
  case (Cons a t)
  obtain k e where a: "a = (k, e)" by (cases a)
  from Cons.prems a have kn: "k \<notin> set (keys acc)" by (auto simp: keys_def)
  have step: "modify k (\<lambda>_. \<lparr>read_bytes = read_bytes e, write_bytes = write_bytes e\<rparr>)
                (missing default_io k acc) = acc @ [(k, e)]"
    using kn by (simp add: missing_def modify_append_new)
  have "set (keys t) \<inter> set (keys (acc @ [(k, e)])) = {}"
    using Cons.prems a by (auto simp: keys_def)
  moreover have "distinct (keys t)" using Cons.prems by (simp add: keys_def)
  ultimately show ?case using Cons.IH[of "acc @ [(k, e)]"] a step by simp
qed

lemma convert_distinct: "distinct (keys t) \<Longrightarrow> convert t = t"
  using convert_fold[of t "[]"] by (simp add: convert_def keys_def)

lemma run_delivers_totals:
  "run d i n st its = Some out \<Longrightarrow>
     \<exists>v. sample_loop (st + of_int d) its init_vars = Some v \<and> out = totals v"
proof -
  assume "run d i n st its = Some out"
  then obtain v where v: "sample_loop (st + of_int d) its init_vars = Some v" "out = convert (totals v)"
    by (auto simp: run_def)
  have "distinct (keys (totals init_vars))" by (simp add: init_vars_def keys_def)
  from distinct_sample_loop[OF this v(1)] have "convert (totals v) = totals v"
    by (rule convert_distinct)
  with v show ?thesis by simp
qed

lemma seen_snoc: "seen pid (ys @ [p]) = (seen pid ys \<or> (info_pid p = pid \<and> readable p))"
  by (auto simp: seen_def)

lemma sample_proc_cases:
  "\<not> readable p \<Longrightarrow> sample_proc p v = v"
  "readable p \<Longrightarrow> prev_io v (info_pid p) = None \<Longrightarrow>
     totals (sample_proc p v) = totals v \<and> dom (prev_io (sample_proc p v)) = insert (info_pid p) (dom (prev_io v))"
  "readable p \<Longrightarrow> prev_io v (info_pid p) \<noteq> None \<Longrightarrow>
     set (keys (totals (sample_proc p v))) = insert (identity p) (set (keys (totals v)))
     \<and> dom (prev_io (sample_proc p v)) = insert (info_pid p) (dom (prev_io v))"
  by (auto simp: sample_proc_def readable_def Let_def add_read_bytes_def add_write_bytes_def
      keys_modify set_keys_missing identity_def split: io_result.splits option.splits)

lemma keys_fold_sample_proc:
  "dom (prev_io v) = {pid. seen pid ys} \<Longrightarrow>
     set (keys (totals (fold sample_proc zs v))) = set (keys (totals v)) \<union> set (delta_identities ys zs)"
proof (induction zs arbitrary: ys v)
  case Nil
  then show ?case by simp
next
  case (Cons p zs)
  show ?case
  proof (cases "readable p")
    case False
    then have "dom (prev_io (sample_proc p v)) = {pid. seen pid (ys @ [p])}"
      using Cons.prems by (simp add: sample_proc_cases(1) seen_snoc)
    from Cons.IH[OF this] False show ?thesis by (simp add: sample_proc_cases(1))
  next
    case True
    show ?thesis
    proof (cases "prev_io v (info_pid p)")
      case None
      then have "info_pid p \<notin> dom (prev_io v)" by (simp add: domIff)
      with Cons.prems have ns: "\<not> seen (info_pid p) ys" by simp
      from sample_proc_cases(2)[OF True None]
      have t: "totals (sample_proc p v) = totals v"
        and d: "dom (prev_io (sample_proc p v)) = insert (info_pid p) (dom (prev_io v))" by simp_all
      have "dom (prev_io (sample_proc p v)) = {pid. seen pid (ys @ [p])}"
        using d Cons.prems True by (auto simp: seen_snoc)
      from Cons.IH[OF this] t ns show ?thesis by simp
    next
      case (Some a)
      then have "info_pid p \<in> dom (prev_io v)" by (simp add: domIff)
      with Cons.prems have s: "seen (info_pid p) ys" by simp
      from Some have "prev_io v (info_pid p) \<noteq> None" by simp
      from sample_proc_cases(3)[OF True this]
      have t: "set (keys (totals (sample_proc p v))) = insert (identity p) (set (keys (totals v)))"
        and d: "dom (prev_io (sample_proc p v)) = insert (info_pid p) (dom (prev_io v))" by simp_all
      have "dom (prev_io (sample_proc p v)) = {pid. seen pid (ys @ [p])}"
        using d Cons.prems True by (auto simp: seen_snoc)
      from Cons.IH[OF this] t s True show ?thesis by simp
    qed
  qed
qed

lemma run_keys:
  assumes "run d i n st its = Some out"
  shows "set (keys out) =
           set (delta_identities [] (concat (map process_iter (executed (st + of_int d) its))))"
proof -
  from run_delivers_totals[OF assms] obtain v where
    v: "sample_loop (st + of_int d) its init_vars = Some v" "out = totals v" by blast
  have "dom (prev_io init_vars) = {pid. seen pid []}" by (simp add: init_vars_def seen_def)
  from keys_fold_sample_proc[OF this] sample_loop_executed[OF v(1)] v(2)
  show ?thesis by (simp add: fold_tick_concat init_vars_def keys_def)
qed

subsection \<open>Sorting and slicing the rows\<close>









subsection \<open>Steps of the worker thread\<close>

lemma steps_in_tick:
  "phase w = InTick ps \<Longrightarrow> length es = length ps \<Longrightarrow>
     worker_steps es (w, q) = (w\<lparr>vars := tick ps (vars w), phase := InTick []\<rparr>, q)"
proof (induction ps arbitrary: w es)
  case Nil
  then show ?case by (simp add: tick_def)
next
  case (Cons p ps)
  then obtain e es' where es: "es = e # es'" "length es' = length ps" by (cases es) auto
  have st: "worker_step (fst e) (snd e) (w, q) = (w\<lparr>vars := sample_proc p (vars w), phase := InTick ps\<rparr>, q)"
    using Cons.prems(1) by (simp add: worker_step_def)
  show ?case
    using Cons.IH[of "w\<lparr>vars := sample_proc p (vars w), phase := InTick ps\<rparr>" es'] es st
    by (simp add: tick_def)
qed

lemma worker_steps_append: "worker_steps (es @ es') s = worker_steps es' (worker_steps es s)"
  by (induction es arbitrary: s) simp_all

lemma stop_in_flight:
  assumes "phase w = InTick ps" and "length es = length ps"
  shows "worker_steps (es @ [e1, e2]) (stop w, q) =
           (w\<lparr>stop_event := True, vars := tick ps (vars w), phase := Finished\<rparr>,
            q @ [convert (totals (tick ps (vars w)))])"
proof -
  have "phase (stop w) = InTick ps" using assms(1) by (simp add: stop_def)
  from steps_in_tick[OF this assms(2), of q]
  show ?thesis
    by (simp add: worker_steps_append worker_step_def stop_def stopped_def)
qed

section \<open>C1: the delta of two consecutive snapshots\<close>

text \<open>
  Claim C1. When a process is read whose pid has a stored snapshot \<open>(pr, pw)\<close>, the entry
  of its identity grows by exactly \<open>r - pr\<close> bytes read when the counter did not decrease and
  by exactly zero when it decreased, and likewise for the bytes written; the new reading
  becomes the stored snapshot. For the three ticks of the specification's example
  (100/50, 150/80, 140/90) the worker delivers read 50 and write 40 for that identity, which
  the table shows as a total of 90 bytes (in megabytes).
\<close>

theorem delta_accumulation:
  "(io_counters p = Pio r w \<and> prev_io v (info_pid p) = Some (pr, pw) \<longrightarrow>
      read_bytes (entry (totals (sample_proc p v)) (identity p)) =
        read_bytes (entry (totals v) (identity p)) + (if pr \<le> r then of_int (r - pr) else 0)
    \<and> write_bytes (entry (totals (sample_proc p v)) (identity p)) =
        write_bytes (entry (totals v) (identity p)) + (if pw \<le> w then of_int (w - pw) else 0)
    \<and> prev_io (sample_proc p v) (info_pid p) = Some (r, w))
   \<and> run 30 1 15 0
       [Iteration 0 False [Proc pid nm (Pio 100 50)],
        Iteration 1 False [Proc pid nm (Pio 150 80)],
        Iteration 2 False [Proc pid nm (Pio 140 90)],
        Iteration 3 True []]
     = Some [(identity (Proc pid nm (Pio 140 90)), \<lparr>read_bytes = 50, write_bytes = 40\<rparr>)]
   \<and> map total_mb (to_rows [(identity (Proc pid nm (Pio 140 90)), \<lparr>read_bytes = 50, write_bytes = 40\<rparr>)])
     = [90 / (1024 * 1024)]"
proof -
  have "read_bytes (entry (totals (sample_proc p v)) (identity p)) =
        read_bytes (entry (totals v) (identity p)) + (if pr \<le> r then of_int (r - pr) else 0)
    \<and> write_bytes (entry (totals (sample_proc p v)) (identity p)) =
        write_bytes (entry (totals v) (identity p)) + (if pw \<le> w then of_int (w - pw) else 0)
    \<and> prev_io (sample_proc p v) (info_pid p) = Some (r, w)"
    if "io_counters p = Pio r w" "prev_io v (info_pid p) = Some (pr, pw)"
    using entry_sample_proc[OF that] prev_io_sample_proc_read[OF that(1)] by (simp add: max_def)
  then show ?thesis
    using example_run[of pid nm] example_rows[of "identity (Proc pid nm (Pio 140 90))"] by blast
qed

theorem delta_accumulation_witness:
  "io_counters (Proc 7 (Some ''a'') (Pio 140 90)) = Pio 140 90
   \<and> prev_io \<lparr>prev_io = [7 \<mapsto> (150, 80)],
              totals = [((7, ''a''), \<lparr>read_bytes = 50, write_bytes = 30\<rparr>)]\<rparr> 7 = Some (150, 80)
   \<and> entry (totals (sample_proc (Proc 7 (Some ''a'') (Pio 140 90))
        \<lparr>prev_io = [7 \<mapsto> (150, 80)],
         totals = [((7, ''a''), \<lparr>read_bytes = 50, write_bytes = 30\<rparr>)]\<rparr>)) (7, ''a'')
      = \<lparr>read_bytes = 50, write_bytes = 40\<rparr>"
  using delta_accumulation[of "Proc 7 (Some ''a'') (Pio 140 90)" 140 90
      "\<lparr>prev_io = [7 \<mapsto> (150, 80)], totals = [((7, ''a''), \<lparr>read_bytes = 50, write_bytes = 30\<rparr>)]\<rparr>"
      150 80]
  by (simp add: identity_def display_name_def entry_def)

section \<open>C2: the first snapshot of a pid is a baseline only\<close>

text \<open>
  Claim C2. Take any ticks already processed and any processes already visited in the
  current tick, none of which was a successful reading of \<open>pid\<close>. Then the first successful
  reading of \<open>pid\<close> leaves the whole \<open>totals\<close> dictionary as it is, no identity with that
  pid has an entry, and the reading is stored as the snapshot the next delta is taken
  against.
\<close>

theorem first_snapshot_is_baseline:
  "\<not> seen pid (concat ticks @ ps) \<Longrightarrow>
     totals (sample_proc (Proc pid nm (Pio r w)) (tick ps (fold tick ticks init_vars)))
       = totals (tick ps (fold tick ticks init_vars))
   \<and> (\<forall>n. (pid, n) \<notin> set (keys (totals
          (sample_proc (Proc pid nm (Pio r w)) (tick ps (fold tick ticks init_vars))))))
   \<and> prev_io (sample_proc (Proc pid nm (Pio r w)) (tick ps (fold tick ticks init_vars))) pid
       = Some (r, w)"
proof -
  assume ns: "\<not> seen pid (concat ticks @ ps)"
  let ?v = "tick ps (fold tick ticks init_vars)"
  have v: "?v = fold sample_proc (concat ticks @ ps) init_vars"
    by (simp add: tick_def fold_tick_concat)
  have p: "prev_io ?v pid = None"
    unfolding v using prev_io_fold[OF ns, of init_vars] by (simp add: init_vars_def)
  have k: "(pid, n) \<notin> set (keys (totals ?v))" for n
    unfolding v using keys_fold[of pid n "concat ticks @ ps" init_vars] ns
    by (auto simp: init_vars_def keys_def)
  from p have s: "sample_proc (Proc pid nm (Pio r w)) ?v = ?v\<lparr>prev_io := (prev_io ?v)(pid \<mapsto> (r, w))\<rparr>"
    by (simp add: sample_proc_def)
  show ?thesis using k by (simp add: s)
qed

theorem first_snapshot_is_baseline_witness:
  "\<not> seen 7 (concat [[Proc 3 (Some ''b'') (Pio 1 1), Proc 7 None AccessDenied]] @ [Proc 3 (Some ''b'') (Pio 4 1)])
   \<and> totals (sample_proc (Proc 7 None (Pio 100 50))
        (tick [Proc 3 (Some ''b'') (Pio 4 1)]
           (fold tick [[Proc 3 (Some ''b'') (Pio 1 1), Proc 7 None AccessDenied]] init_vars)))
       = [((3, ''b''), \<lparr>read_bytes = 3, write_bytes = 0\<rparr>)]
   \<and> prev_io (sample_proc (Proc 7 None (Pio 100 50))
        (tick [Proc 3 (Some ''b'') (Pio 4 1)]
           (fold tick [[Proc 3 (Some ''b'') (Pio 1 1), Proc 7 None AccessDenied]] init_vars))) 7
       = Some (100, 50)"
proof -
  have ns: "\<not> seen 7 (concat [[Proc 3 (Some ''b'') (Pio 1 1), Proc 7 None AccessDenied]] @ [Proc 3 (Some ''b'') (Pio 4 1)])"
    by (simp add: seen_def readable_def)
  have t: "totals (tick [Proc 3 (Some ''b'') (Pio 4 1)]
           (fold tick [[Proc 3 (Some ''b'') (Pio 1 1), Proc 7 None AccessDenied]] init_vars))
       = [((3, ''b''), \<lparr>read_bytes = 3, write_bytes = 0\<rparr>)]"
    by (simp add: tick_def sample_proc_def init_vars_def Let_def add_read_bytes_def
        add_write_bytes_def missing_def keys_def default_io_def display_name_def)
  from first_snapshot_is_baseline[OF ns, of None 100 50] ns t show ?thesis by simp
qed

section \<open>C3: order and length of the displayed summary\<close>




section \<open>C4: the key of the running totals\<close>

text \<open>
  Claim C4, in the form that holds for the code. The worker of the front end files its totals under
  \<^verbatim>\<open>(pid, name)\<close>: the entry of an identity with pid \<open>pid\<close> after any ticks is the entry that
  the readings of \<open>pid\<close> alone produce, so no reading of another pid reaches it.
\<close>

theorem worker_rows_keyed_by_pid:
  "map_of (totals (fold tick ticks v)) (pid, n)
     = map_of (totals (fold tick (map (filter (\<lambda>p. info_pid p = pid)) ticks) v)) (pid, n)"
  using fold_sample_proc_pid[of v pid v "concat ticks"]
  by (simp add: fold_tick_concat filter_concat)

theorem worker_rows_keyed_by_pid_witness:
  "map_of (totals (fold tick
       [[Proc 1 (Some ''x'') (Pio 100 10), Proc 2 (Some ''x'') (Pio 200 20)],
        [Proc 1 (Some ''x'') (Pio 130 10), Proc 2 (Some ''x'') (Pio 200 25)]] init_vars)) (1, ''x'')
   = Some \<lparr>read_bytes = 30, write_bytes = 0\<rparr>"
proof -
  have "map_of (totals (fold tick
       [[Proc 1 (Some ''x'') (Pio 100 10)], [Proc 1 (Some ''x'') (Pio 130 10)]] init_vars)) (1, ''x'')
     = Some \<lparr>read_bytes = 30, write_bytes = 0\<rparr>"
    by (simp add: tick_def sample_proc_def init_vars_def Let_def add_read_bytes_def
        add_write_bytes_def missing_def keys_def default_io_def display_name_def)
  with worker_rows_keyed_by_pid[of
      "[[Proc 1 (Some ''x'') (Pio 100 10), Proc 2 (Some ''x'') (Pio 200 20)],
        [Proc 1 (Some ''x'') (Pio 130 10), Proc 2 (Some ''x'') (Pio 200 25)]]" init_vars 1 "''x''"]
  show ?thesis by simp
qed

text \<open>
  Claim C4 as stated fails for the console script, whose key is the name alone: two
  processes alive in the same tick, with pids 1 and 2 and the same name, end in one row
  that holds the sum of their counters.
\<close>

theorem console_merges_same_name:
  "monitor_disk_activity 120 1 0
     [(0, [Proc 1 (Some ''chrome.exe'') (Pio 100 10), Proc 2 (Some ''chrome.exe'') (Pio 200 20)]),
      (120, [])]
   = Some ([(Some ''chrome.exe'', 300 / (1024 * 1024), 30 / (1024 * 1024), 330 / (1024 * 1024))], 1)"
  by (simp add: monitor_disk_activity_def console_proc_def missing_def keys_def
      default_counters_def process_totals_def Let_def)

section \<open>C5: non-positive duration or top-N at start\<close>

text \<open>
  Claim C5, in the form that holds for the code. With no run in progress and numbers in the three fields,
  \<^verbatim>\<open>start_monitor\<close> returns normally and starts a worker whose duration and top-N are the
  field values raised to at least 1 (the interval to at least 0.1). It raises only when a
  field does not hold a number, and then before any assignment. The console script with a
  duration of zero or less returns at once with an empty table and no sample.
\<close>

theorem start_clamps_non_positive:
  "(\<not> running g \<and> duration_var g = Some dv \<and> interval_var g = Some iv \<and> top_var g = Some tv \<longrightarrow>
       fst (start_monitor g) = Returned
     \<and> worker (snd (start_monitor g)) = Some (new_worker (max 1 dv) (max (1 / 10) iv) (max 1 tv))
     \<and> running (snd (start_monitor g)))
   \<and> (\<not> running g \<and> (duration_var g = None \<or> interval_var g = None \<or> top_var g = None) \<longrightarrow>
       start_monitor g = (Raised_TclError, g))
   \<and> (dur \<le> 0 \<and> cst \<le> fst it \<longrightarrow> monitor_disk_activity dur intv cst (it # its) = Some ([], 0))"
proof -
  have a: "fst (start_monitor g) = Returned
     \<and> worker (snd (start_monitor g)) = Some (new_worker (max 1 dv) (max (1 / 10) iv) (max 1 tv))
     \<and> running (snd (start_monitor g))"
    if "\<not> running g" "duration_var g = Some dv" "interval_var g = Some iv" "top_var g = Some tv"
    using that by (simp add: start_monitor_def Let_def running_def is_alive_def new_worker_def)
  have b: "start_monitor g = (Raised_TclError, g)"
    if "\<not> running g" "duration_var g = None \<or> interval_var g = None \<or> top_var g = None"
    using that by (auto simp: start_monitor_def split: option.splits)
  have c: "monitor_disk_activity dur intv cst (it # its) = Some ([], 0)"
    if "dur \<le> 0" "cst \<le> fst it"
    using that by (simp add: monitor_disk_activity_def process_totals_def)
  from a b c show ?thesis by blast
qed

theorem start_clamps_non_positive_witness:
  "\<not> running (init_gui\<lparr>duration_var := Some 0, top_var := Some (- 3)\<rparr>)
   \<and> fst (start_monitor (init_gui\<lparr>duration_var := Some 0, top_var := Some (- 3)\<rparr>)) = Returned
   \<and> worker (snd (start_monitor (init_gui\<lparr>duration_var := Some 0, top_var := Some (- 3)\<rparr>)))
       = Some (new_worker 1 1 1)
   \<and> start_monitor (init_gui\<lparr>duration_var := None\<rparr>) = (Raised_TclError, init_gui\<lparr>duration_var := None\<rparr>)
   \<and> monitor_disk_activity (- 5) 1 100 [(100, [Proc 1 (Some ''a'') (Pio 5 5)])] = Some ([], 0)"
proof -
  have r: "\<not> running (init_gui\<lparr>duration_var := Some 0, top_var := Some (- 3)\<rparr>)"
    by (simp add: running_def init_gui_def)
  have r': "\<not> running (init_gui\<lparr>duration_var := None\<rparr>)"
    by (simp add: running_def init_gui_def)
  from start_clamps_non_positive[of "init_gui\<lparr>duration_var := Some 0, top_var := Some (- 3)\<rparr>"
      0 1 "- 3" "- 5" 100 "(100, [Proc 1 (Some ''a'') (Pio 5 5)])" 1 "[]"] r
  have 1: "fst (start_monitor (init_gui\<lparr>duration_var := Some 0, top_var := Some (- 3)\<rparr>)) = Returned
   \<and> worker (snd (start_monitor (init_gui\<lparr>duration_var := Some 0, top_var := Some (- 3)\<rparr>)))
       = Some (new_worker 1 1 1)
   \<and> monitor_disk_activity (- 5) 1 100 [(100, [Proc 1 (Some ''a'') (Pio 5 5)])] = Some ([], 0)"
    by (simp add: init_gui_def)
  from start_clamps_non_positive[of "init_gui\<lparr>duration_var := None\<rparr>"] r'
  have 2: "start_monitor (init_gui\<lparr>duration_var := None\<rparr>) = (Raised_TclError, init_gui\<lparr>duration_var := None\<rparr>)"
    by (simp add: init_gui_def)
  from r 1 2 show ?thesis by blast
qed

text \<open>
  Claim C5 as stated fails: with 0 in the duration field \<^verbatim>\<open>start_monitor\<close> returns normally
  and a worker with duration 1 is running; \<^verbatim>\<open>monitor_disk_activity\<close> with duration 0 returns
  its (empty) summary.
\<close>

theorem start_with_zero_duration_runs:
  "fst (start_monitor (init_gui\<lparr>duration_var := Some 0\<rparr>)) = Returned
   \<and> map_option duration (worker (snd (start_monitor (init_gui\<lparr>duration_var := Some 0\<rparr>)))) = Some 1
   \<and> running (snd (start_monitor (init_gui\<lparr>duration_var := Some 0\<rparr>)))
   \<and> monitor_disk_activity 0 1 100 [(100, [Proc 1 (Some ''a'') (Pio 5 5)])] = Some ([], 0)"
  by (simp add: start_monitor_def Let_def running_def is_alive_def new_worker_def init_gui_def
      monitor_disk_activity_def process_totals_def)

section \<open>C6: a failed counter read skips that process only\<close>

text \<open>
  Claim C6. When \<^verbatim>\<open>io_counters()\<close> of a process raises \<^verbatim>\<open>NoSuchProcess\<close> or \<^verbatim>\<open>AccessDenied\<close>,
  the loop body leaves the accumulated state as it is, the tick gives the other processes
  exactly what it gives them without that process, and the run (of the worker and of the
  console script alike) executes the same iterations and returns the same result as if
  the process had not been enumerated.
\<close>

theorem read_failure_skipped:
  "io_counters p = NoSuchProcess \<or> io_counters p = AccessDenied \<Longrightarrow>
     sample_proc p v = v
   \<and> tick (ps @ p # qs) v = tick (ps @ qs) v
   \<and> run d i n st (its @ Iteration t s (ps @ p # qs) # its') =
       run d i n st (its @ Iteration t s (ps @ qs) # its')
   \<and> console_proc p c = c
   \<and> monitor_disk_activity dur intv cst (cits @ (ct, ps @ p # qs) # cits') =
       monitor_disk_activity dur intv cst (cits @ (ct, ps @ qs) # cits')"
proof -
  assume "io_counters p = NoSuchProcess \<or> io_counters p = AccessDenied"
  then have u: "\<not> readable p" by (simp add: readable_iff)
  show ?thesis
    by (simp add: sample_proc_unreadable[OF u] tick_skip[OF u] console_proc_unreadable[OF u]
        run_def monitor_disk_activity_def sample_loop_skip[OF u] console_loop_skip[OF u])
qed

theorem read_failure_skipped_witness:
  "(io_counters (Proc 4 None AccessDenied) = NoSuchProcess
      \<or> io_counters (Proc 4 None AccessDenied) = AccessDenied)
   \<and> run 30 1 15 0
       [Iteration 0 False [Proc 4 None AccessDenied, Proc 7 (Some ''a'') (Pio 100 50)],
        Iteration 1 False [Proc 7 (Some ''a'') (Pio 150 80)],
        Iteration 2 True []]
     = Some [((7, ''a''), \<lparr>read_bytes = 50, write_bytes = 30\<rparr>)]"
proof -
  have f: "io_counters (Proc 4 None AccessDenied) = NoSuchProcess
             \<or> io_counters (Proc 4 None AccessDenied) = AccessDenied"
    by simp
  have "run 30 1 15 0
          [Iteration 0 False [Proc 7 (Some ''a'') (Pio 100 50)],
           Iteration 1 False [Proc 7 (Some ''a'') (Pio 150 80)],
           Iteration 2 True []]
        = Some [((7, ''a''), \<lparr>read_bytes = 50, write_bytes = 30\<rparr>)]"
    by (simp add: run_def tick_def sample_proc_def init_vars_def Let_def add_read_bytes_def
        add_write_bytes_def missing_def keys_def convert_def default_io_def display_name_def)
  with f read_failure_skipped[OF f, of init_vars "[]" "[Proc 7 (Some ''a'') (Pio 100 50)]"
      30 1 15 0 "[]" 0 False
      "[Iteration 1 False [Proc 7 (Some ''a'') (Pio 150 80)], Iteration 2 True []]"]
  show ?thesis by simp
qed

section \<open>C7: start while a run is in progress\<close>

text \<open>
  Claim C7. When the worker is alive, \<^verbatim>\<open>start_monitor\<close> shows the dialog "Monitoring
  already in progress." and returns with every field of the front end as it was: the
  worker with its accumulated variables and stop flag, the result queue, the buttons, the
  table and the status.
\<close>

theorem start_while_running_rejected:
  "running g \<Longrightarrow>
     start_monitor g = (Showinfo ''Disk Monitor'' ''Monitoring already in progress.'', g)"
  by (simp add: start_monitor_def)

theorem start_while_running_rejected_witness:
  "running (init_gui\<lparr>worker := Some ((new_worker 30 1 15)\<lparr>phase := LoopCheck\<rparr>)\<rparr>)
   \<and> snd (start_monitor (init_gui\<lparr>worker := Some ((new_worker 30 1 15)\<lparr>phase := LoopCheck\<rparr>)\<rparr>))
       = init_gui\<lparr>worker := Some ((new_worker 30 1 15)\<lparr>phase := LoopCheck\<rparr>)\<rparr>
   \<and> fst (start_monitor (init_gui\<lparr>worker := Some ((new_worker 30 1 15)\<lparr>phase := LoopCheck\<rparr>)\<rparr>))
       = Showinfo ''Disk Monitor'' ''Monitoring already in progress.''"
proof -
  have r: "running (init_gui\<lparr>worker := Some ((new_worker 30 1 15)\<lparr>phase := LoopCheck\<rparr>)\<rparr>)"
    by (simp add: running_def is_alive_def)
  from start_while_running_rejected[OF r] r show ?thesis by simp
qed

section \<open>C8: reading the summary twice\<close>

text \<open>
  Claim C8, in the form that holds for the code. The summary of a run is computed once.
  The step that leaves the loop puts the converted totals into the queue and leaves the
  accumulated variables as they are, and a further step of the finished worker changes
  neither the worker nor the queue. The poll that finds this result in the queue takes it
  out, appends its sorted and truncated rows to the table and keeps them as the last
  result; the next poll finds the queue empty and returns with the table, the last result
  and every other field as the first poll left them.
\<close>

theorem summary_delivered_once:
  "(phase w = LoopCheck \<and> \<not> (t < end_time w \<and> \<not> stopped w) \<longrightarrow>
       worker_step t procs (w, q) = (w\<lparr>phase := Finished\<rparr>, q @ [convert (totals (vars w))])
     \<and> vars (fst (worker_step t procs (w, q))) = vars w
     \<and> worker_step t' procs' (worker_step t procs (w, q)) = worker_step t procs (w, q))
   \<and> (result_queue g = [result] \<and> top_var g = Some n \<longrightarrow>
       last_result (snd (periodic_poll g)) = Some (displayed result n)
     \<and> tree (snd (periodic_poll g)) = tree g @ displayed result n
     \<and> result_queue (snd (periodic_poll g)) = []
     \<and> periodic_poll (snd (periodic_poll g))
         = (Returned, snd (periodic_poll g)))"
proof -
  have a: "worker_step t procs (w, q) = (w\<lparr>phase := Finished\<rparr>, q @ [convert (totals (vars w))])
     \<and> vars (fst (worker_step t procs (w, q))) = vars w
     \<and> worker_step t' procs' (worker_step t procs (w, q)) = worker_step t procs (w, q)"
    if "phase w = LoopCheck" "\<not> (t < end_time w \<and> \<not> stopped w)"
    using that by (auto simp: worker_step_def)
  have b: "last_result (snd (periodic_poll g)) = Some (displayed result n)
     \<and> tree (snd (periodic_poll g)) = tree g @ displayed result n
     \<and> result_queue (snd (periodic_poll g)) = []
     \<and> periodic_poll (snd (periodic_poll g)) = (Returned, snd (periodic_poll g))"
    if "result_queue g = [result]" "top_var g = Some n"
    using that by (simp add: periodic_poll_def Let_def)
  from a b show ?thesis by blast
qed

theorem summary_delivered_once_witness:
  "phase ((new_worker 30 1 15)\<lparr>phase := LoopCheck, end_time := 30,
            vars := \<lparr>prev_io = [7 \<mapsto> (100, 50)],
                     totals = [((7, ''a''), \<lparr>read_bytes = 1048576, write_bytes = 0\<rparr>)]\<rparr>\<rparr>)
     = LoopCheck
   \<and> \<not> ((31::real) < end_time ((new_worker 30 1 15)\<lparr>phase := LoopCheck, end_time := 30,
            vars := \<lparr>prev_io = [7 \<mapsto> (100, 50)],
                     totals = [((7, ''a''), \<lparr>read_bytes = 1048576, write_bytes = 0\<rparr>)]\<rparr>\<rparr>))
   \<and> snd (worker_step 32 [] (worker_step 31 [] ((new_worker 30 1 15)\<lparr>phase := LoopCheck, end_time := 30,
            vars := \<lparr>prev_io = [7 \<mapsto> (100, 50)],
                     totals = [((7, ''a''), \<lparr>read_bytes = 1048576, write_bytes = 0\<rparr>)]\<rparr>\<rparr>, [])))
     = [[((7, ''a''), \<lparr>read_bytes = 1048576, write_bytes = 0\<rparr>)]]
   \<and> result_queue (init_gui\<lparr>result_queue := [[((7, ''a''), \<lparr>read_bytes = 1048576, write_bytes = 0\<rparr>)]]\<rparr>)
       = [[((7, ''a''), \<lparr>read_bytes = 1048576, write_bytes = 0\<rparr>)]]
   \<and> top_var (init_gui\<lparr>result_queue := [[((7, ''a''), \<lparr>read_bytes = 1048576, write_bytes = 0\<rparr>)]]\<rparr>)
       = Some 15
   \<and> last_result (snd (periodic_poll (snd (periodic_poll
        (init_gui\<lparr>result_queue := [[((7, ''a''), \<lparr>read_bytes = 1048576, write_bytes = 0\<rparr>)]]\<rparr>)))))
       = Some [(7, ''a'', 1, 0, 1)]
   \<and> tree (snd (periodic_poll (snd (periodic_poll
        (init_gui\<lparr>result_queue := [[((7, ''a''), \<lparr>read_bytes = 1048576, write_bytes = 0\<rparr>)]]\<rparr>)))))
       = [(7, ''a'', 1, 0, 1)]"
proof -
  let ?w = "(new_worker 30 1 15)\<lparr>phase := LoopCheck, end_time := 30,
            vars := \<lparr>prev_io = [7 \<mapsto> (100, 50)],
                     totals = [((7, ''a''), \<lparr>read_bytes = 1048576, write_bytes = 0\<rparr>)]\<rparr>\<rparr>"
  let ?r = "[((7::int, ''a''), \<lparr>read_bytes = 1048576, write_bytes = 0\<rparr>)]"
  let ?g = "init_gui\<lparr>result_queue := [?r]\<rparr>"
  have h1: "phase ?w = LoopCheck" by simp
  have h2: "\<not> ((31::real) < end_time ?w)" by simp
  have h3: "result_queue ?g = [?r]" by simp
  have h4: "top_var ?g = Some 15" by (simp add: init_gui_def)
  have d: "displayed ?r 15 = [(7, ''a'', 1, 0, 1)]"
    by (simp add: displayed_def slice_to_def sort_rows_def to_rows_def sort_key_def)
  have cv: "convert (totals (vars ?w)) = ?r"
    by (simp add: convert_def missing_def keys_def default_io_def)
  have tg: "tree ?g = []" by (simp add: init_gui_def)
  note i = summary_delivered_once[of ?w 31 "[]" "[]" 32 "[]" ?g ?r 15]
  from i h1 h2 have c1: "worker_step 32 [] (worker_step 31 [] (?w, [])) = worker_step 31 [] (?w, [])"
    and c1b: "worker_step 31 [] (?w, []) = (?w\<lparr>phase := Finished\<rparr>, [] @ [convert (totals (vars ?w))])"
    by blast+
  have "snd (worker_step 32 [] (worker_step 31 [] (?w, []))) = snd (worker_step 31 [] (?w, []))"
    using c1 by (rule arg_cong)
  also have "\<dots> = [?r]"
    by (simp only: c1b cv snd_conv append_Nil)
  finally have c1': "snd (worker_step 32 [] (worker_step 31 [] (?w, []))) = [?r]" .
  from i h3 h4 have c2: "periodic_poll (snd (periodic_poll ?g)) = (Returned, snd (periodic_poll ?g))"
    and c3: "last_result (snd (periodic_poll ?g)) = Some (displayed ?r 15)"
    and c4: "tree (snd (periodic_poll ?g)) = tree ?g @ displayed ?r 15"
    by blast+
  have c5: "last_result (snd (periodic_poll (snd (periodic_poll ?g)))) = Some [(7, ''a'', 1, 0, 1)]"
    by (simp only: c2 snd_conv c3 d)
  have c6: "tree (snd (periodic_poll (snd (periodic_poll ?g)))) = [(7, ''a'', 1, 0, 1)]"
    by (simp only: c2 snd_conv c4 d tg append_Nil)
  from h1 h2 c1' h3 h4 c5 c6 show ?thesis by blast
qed

text \<open>
  Claim C8 as stated fails: the summary cannot be produced a second time. The first poll
  takes the result out of the queue and inserts its row; the poll after it finds the queue
  empty and inserts no row, so the two calls do not produce the same rows. Nor does the worker
  deliver again: after a further step the queue holds the one result of the first.
\<close>

theorem second_poll_yields_no_summary:
  "rows_inserted (init_gui\<lparr>result_queue := [[((7, ''a''), \<lparr>read_bytes = 1048576, write_bytes = 0\<rparr>)]]\<rparr>)
     = [(7, ''a'', 1, 0, 1)]
   \<and> rows_inserted (snd (periodic_poll
        (init_gui\<lparr>result_queue := [[((7, ''a''), \<lparr>read_bytes = 1048576, write_bytes = 0\<rparr>)]]\<rparr>)))
     = []
   \<and> rows_inserted (snd (periodic_poll
        (init_gui\<lparr>result_queue := [[((7, ''a''), \<lparr>read_bytes = 1048576, write_bytes = 0\<rparr>)]]\<rparr>)))
     \<noteq> rows_inserted (init_gui\<lparr>result_queue := [[((7, ''a''), \<lparr>read_bytes = 1048576, write_bytes = 0\<rparr>)]]\<rparr>)
   \<and> snd (worker_step 31 [] ((new_worker 30 1 15)\<lparr>phase := LoopCheck, end_time := 30,
            vars := \<lparr>prev_io = [7 \<mapsto> (100, 50)],
                     totals = [((7, ''a''), \<lparr>read_bytes = 1048576, write_bytes = 0\<rparr>)]\<rparr>\<rparr>, []))
     = [[((7, ''a''), \<lparr>read_bytes = 1048576, write_bytes = 0\<rparr>)]]
   \<and> snd (worker_step 32 [] (worker_step 31 [] ((new_worker 30 1 15)\<lparr>phase := LoopCheck, end_time := 30,
            vars := \<lparr>prev_io = [7 \<mapsto> (100, 50)],
                     totals = [((7, ''a''), \<lparr>read_bytes = 1048576, write_bytes = 0\<rparr>)]\<rparr>\<rparr>, [])))
     = [[((7, ''a''), \<lparr>read_bytes = 1048576, write_bytes = 0\<rparr>)]]"
  by (simp add: rows_inserted_def periodic_poll_def init_gui_def displayed_def slice_to_def
      sort_rows_def to_rows_def sort_key_def Let_def worker_step_def new_worker_def convert_def
      stopped_def missing_def keys_def default_io_def)

section \<open>C9: stop is a request\<close>

text \<open>
  Claim C9. \<^verbatim>\<open>stop\<close> changes the stop flag and nothing else, and a second call changes
  nothing more. A worker that is stopped while processes of the current tick remain
  visits every one of them, sleeps, finds the flag at the next evaluation of the loop
  condition and returns, delivering totals that include the whole tick. A worker stopped
  at the loop condition returns at that evaluation. \<^verbatim>\<open>stop_monitor\<close> on a live worker leaves
  its control point, its variables and the queue as they are, and with no live worker it
  changes nothing.
\<close>

theorem stop_is_cooperative:
  "stop w = w\<lparr>stop_event := True\<rparr>
   \<and> stop (stop w) = stop w
   \<and> (phase w = InTick ps \<and> length es = length ps \<longrightarrow>
        worker_steps (es @ [e1, e2]) (stop w, q) =
          (w\<lparr>stop_event := True, vars := tick ps (vars w), phase := Finished\<rparr>,
           q @ [convert (totals (tick ps (vars w)))]))
   \<and> (phase w = LoopCheck \<longrightarrow>
        worker_step t procs (stop w, q) =
          (w\<lparr>stop_event := True, phase := Finished\<rparr>, q @ [convert (totals (vars w))]))
   \<and> (running g \<longrightarrow>
        map_option phase (worker (stop_monitor g)) = map_option phase (worker g)
      \<and> map_option vars (worker (stop_monitor g)) = map_option vars (worker g)
      \<and> map_option stop_event (worker (stop_monitor g)) = Some True
      \<and> result_queue (stop_monitor g) = result_queue g)
   \<and> (\<not> running g \<longrightarrow> stop_monitor g = g)"
proof -
  have a: "worker_step t procs (stop w, q) =
          (w\<lparr>stop_event := True, phase := Finished\<rparr>, q @ [convert (totals (vars w))])"
    if "phase w = LoopCheck"
    using that by (simp add: worker_step_def stop_def stopped_def)
  have b: "map_option phase (worker (stop_monitor g)) = map_option phase (worker g)
      \<and> map_option vars (worker (stop_monitor g)) = map_option vars (worker g)
      \<and> map_option stop_event (worker (stop_monitor g)) = Some True
      \<and> result_queue (stop_monitor g) = result_queue g" if "running g"
    using that by (auto simp: running_def stop_monitor_def stop_def split: option.splits)
  have c: "stop_monitor g = g" if "\<not> running g"
    using that by (auto simp: running_def stop_monitor_def split: option.splits)
  show ?thesis using a b c stop_in_flight[of w ps es e1 e2 q] by (simp add: stop_def)
qed

theorem stop_is_cooperative_witness:
  "phase ((new_worker 30 1 15)\<lparr>phase := InTick [Proc 7 (Some ''a'') (Pio 150 80)], end_time := 30,
            vars := \<lparr>prev_io = [7 \<mapsto> (100, 50)], totals = []\<rparr>\<rparr>)
     = InTick [Proc 7 (Some ''a'') (Pio 150 80)]
   \<and> length [(1::real, [] :: proc list)] = length [Proc 7 (Some ''a'') (Pio 150 80)]
   \<and> snd (worker_steps ([(1, [])] @ [(1, []), (2, [])])
        (stop ((new_worker 30 1 15)\<lparr>phase := InTick [Proc 7 (Some ''a'') (Pio 150 80)], end_time := 30,
            vars := \<lparr>prev_io = [7 \<mapsto> (100, 50)], totals = []\<rparr>\<rparr>), []))
     = [[((7, ''a''), \<lparr>read_bytes = 50, write_bytes = 30\<rparr>)]]
   \<and> phase ((new_worker 30 1 15)\<lparr>phase := LoopCheck, end_time := 30\<rparr>) = LoopCheck
   \<and> snd (worker_step 2 [Proc 7 (Some ''a'') (Pio 150 80)]
        (stop ((new_worker 30 1 15)\<lparr>phase := LoopCheck, end_time := 30\<rparr>), [])) = [[]]
   \<and> running (init_gui\<lparr>worker := Some ((new_worker 30 1 15)\<lparr>phase := LoopCheck\<rparr>)\<rparr>)
   \<and> map_option stop_event
        (worker (stop_monitor (init_gui\<lparr>worker := Some ((new_worker 30 1 15)\<lparr>phase := LoopCheck\<rparr>)\<rparr>)))
       = Some True
   \<and> \<not> running init_gui
   \<and> stop_monitor init_gui = init_gui"
proof -
  let ?w1 = "(new_worker 30 1 15)\<lparr>phase := InTick [Proc 7 (Some ''a'') (Pio 150 80)], end_time := 30,
            vars := \<lparr>prev_io = [7 \<mapsto> (100, 50)], totals = []\<rparr>\<rparr>"
  let ?w2 = "(new_worker 30 1 15)\<lparr>phase := LoopCheck, end_time := 30\<rparr>"
  let ?g1 = "init_gui\<lparr>worker := Some ((new_worker 30 1 15)\<lparr>phase := LoopCheck\<rparr>)\<rparr>"
  have h1: "phase ?w1 = InTick [Proc 7 (Some ''a'') (Pio 150 80)]" by simp
  have h2: "length [(1::real, [] :: proc list)] = length [Proc 7 (Some ''a'') (Pio 150 80)]" by simp
  have h3: "phase ?w2 = LoopCheck" by simp
  have h4: "running ?g1" by (simp add: running_def is_alive_def)
  have h5: "\<not> running init_gui" by (simp add: running_def init_gui_def)
  have t: "convert (totals (tick [Proc 7 (Some ''a'') (Pio 150 80)] (vars ?w1)))
             = [((7, ''a''), \<lparr>read_bytes = 50, write_bytes = 30\<rparr>)]"
    by (simp add: tick_def sample_proc_def Let_def add_read_bytes_def add_write_bytes_def
        missing_def keys_def convert_def default_io_def display_name_def)
  have c: "convert (totals (vars ?w2)) = []"
    by (simp add: new_worker_def init_vars_def convert_def)
  note i1 = stop_is_cooperative[of ?w1 "[Proc 7 (Some ''a'') (Pio 150 80)]" "[(1, [])]"
      "(1, [])" "(2, [])" "[]" _ _ ?g1]
  note i2 = stop_is_cooperative[of ?w2 _ _ _ _ "[]" 2 "[Proc 7 (Some ''a'') (Pio 150 80)]" init_gui]
  from i1 h1 h2 have s1: "worker_steps ([(1, [])] @ [(1, []), (2, [])]) (stop ?w1, []) =
      (?w1\<lparr>stop_event := True, vars := tick [Proc 7 (Some ''a'') (Pio 150 80)] (vars ?w1),
            phase := Finished\<rparr>,
       [] @ [convert (totals (tick [Proc 7 (Some ''a'') (Pio 150 80)] (vars ?w1)))])"
    by blast
  have v1: "snd (worker_steps ([(1, [])] @ [(1, []), (2, [])]) (stop ?w1, []))
              = [[((7, ''a''), \<lparr>read_bytes = 50, write_bytes = 30\<rparr>)]]"
    by (simp only: s1 snd_conv append_Nil t)
  from i1 h4 have v2: "map_option stop_event (worker (stop_monitor ?g1)) = Some True"
    by blast
  from i2 h3 have s3: "worker_step 2 [Proc 7 (Some ''a'') (Pio 150 80)] (stop ?w2, []) =
      (?w2\<lparr>stop_event := True, phase := Finished\<rparr>, [] @ [convert (totals (vars ?w2))])"
    by blast
  have v3: "snd (worker_step 2 [Proc 7 (Some ''a'') (Pio 150 80)] (stop ?w2, [])) = [[]]"
    by (simp only: s3 snd_conv append_Nil c)
  from i2 h5 have v4: "stop_monitor init_gui = init_gui" by blast
  from h1 h2 v1 h3 v3 h4 v2 h5 v4 show ?thesis by blast
qed

section \<open>C10: truncation happens at display time only\<close>

text \<open>
  Claim C10, in the form that holds for the code. The result of \<^verbatim>\<open>run\<close> does not depend on \<open>top_n\<close>; it is the whole
  \<open>totals\<close> dictionary at the end of the loop, whose keys are the identities that received
  a delta (those read after an earlier successful reading of their pid). The step that
  leaves the loop puts exactly that dictionary into the queue, and every step of the
  thread is the same for any \<open>top_n\<close>. \<^verbatim>\<open>_periodic_poll\<close> truncates with the value of the Top N
  field at that moment, whatever worker the front end holds.
\<close>

theorem result_untruncated_until_display:
  "run d i n st its = run d i n' st its
   \<and> (run d i n st its = Some out \<longrightarrow>
        (\<exists>v. sample_loop (st + of_int d) its init_vars = Some v \<and> out = totals v)
      \<and> set (keys out)
          = set (delta_identities [] (concat (map process_iter (executed (st + of_int d) its)))))
   \<and> (phase w = LoopCheck \<and> \<not> (t < end_time w \<and> \<not> stopped w) \<longrightarrow>
        snd (worker_step t procs (w, q)) = q @ [convert (totals (vars w))])
   \<and> worker_step t procs (w\<lparr>top_n := n'\<rparr>, q)
       = ((fst (worker_step t procs (w, q)))\<lparr>top_n := n'\<rparr>, snd (worker_step t procs (w, q)))
   \<and> (result_queue g = result # rest \<and> top_var g = Some k \<longrightarrow>
        last_result (snd (periodic_poll g)) = Some (slice_to k (sort_rows (to_rows result)))
      \<and> tree (snd (periodic_poll g)) = tree g @ slice_to k (sort_rows (to_rows result)))
   \<and> periodic_poll (g\<lparr>worker := wk\<rparr>)
       = (fst (periodic_poll g), (snd (periodic_poll g))\<lparr>worker := wk\<rparr>)"
proof -
  have a: "run d i n st its = run d i n' st its" by (simp add: run_def)
  have b: "(\<exists>v. sample_loop (st + of_int d) its init_vars = Some v \<and> out = totals v)
      \<and> set (keys out)
          = set (delta_identities [] (concat (map process_iter (executed (st + of_int d) its))))"
    if "run d i n st its = Some out"
    using run_delivers_totals[OF that] run_keys[OF that] by simp
  have c: "snd (worker_step t procs (w, q)) = q @ [convert (totals (vars w))]"
    if "phase w = LoopCheck" "\<not> (t < end_time w \<and> \<not> stopped w)"
    using that by (auto simp: worker_step_def)
  have e: "worker_step t procs (w\<lparr>top_n := n'\<rparr>, q)
       = ((fst (worker_step t procs (w, q)))\<lparr>top_n := n'\<rparr>, snd (worker_step t procs (w, q)))"
    by (simp add: worker_step_def stopped_def Let_def split: phase.splits list.splits)
  have f: "last_result (snd (periodic_poll g)) = Some (slice_to k (sort_rows (to_rows result)))
      \<and> tree (snd (periodic_poll g)) = tree g @ slice_to k (sort_rows (to_rows result))"
    if "result_queue g = result # rest" "top_var g = Some k"
    using that by (simp add: periodic_poll_def Let_def displayed_def)
  have h: "periodic_poll (g\<lparr>worker := wk\<rparr>)
       = (fst (periodic_poll g), (snd (periodic_poll g))\<lparr>worker := wk\<rparr>)"
    by (simp add: periodic_poll_def Let_def split: list.splits option.splits)
  from a b c e f h show ?thesis by blast
qed

theorem result_untruncated_until_display_witness:
  "run 30 1 1 0
     [Iteration 0 False [Proc 7 (Some ''a'') (Pio 100 50), Proc 8 (Some ''b'') (Pio 5 5)],
      Iteration 1 False [Proc 7 (Some ''a'') (Pio 150 80), Proc 8 (Some ''b'') (Pio 6 5)],
      Iteration 31 False []]
     = Some [((7, ''a''), \<lparr>read_bytes = 50, write_bytes = 30\<rparr>),
             ((8, ''b''), \<lparr>read_bytes = 1, write_bytes = 0\<rparr>)]
   \<and> set (keys [((7::int, ''a''), \<lparr>read_bytes = 50, write_bytes = 30\<rparr>),
                 ((8, ''b''), \<lparr>read_bytes = 1, write_bytes = 0\<rparr>)])
       = set (delta_identities [] (concat (map process_iter (executed (0 + of_int 30)
           [Iteration 0 False [Proc 7 (Some ''a'') (Pio 100 50), Proc 8 (Some ''b'') (Pio 5 5)],
            Iteration 1 False [Proc 7 (Some ''a'') (Pio 150 80), Proc 8 (Some ''b'') (Pio 6 5)],
            Iteration 31 False []]))))
   \<and> result_queue (init_gui\<lparr>top_var := Some 1,
         result_queue := [[((7, ''a''), \<lparr>read_bytes = 50, write_bytes = 30\<rparr>),
                           ((8, ''b''), \<lparr>read_bytes = 1, write_bytes = 0\<rparr>)]]\<rparr>)
       = [((7, ''a''), \<lparr>read_bytes = 50, write_bytes = 30\<rparr>),
          ((8, ''b''), \<lparr>read_bytes = 1, write_bytes = 0\<rparr>)] # []
   \<and> top_var (init_gui\<lparr>top_var := Some 1,
         result_queue := [[((7, ''a''), \<lparr>read_bytes = 50, write_bytes = 30\<rparr>),
                           ((8, ''b''), \<lparr>read_bytes = 1, write_bytes = 0\<rparr>)]]\<rparr>) = Some 1
   \<and> last_result (snd (periodic_poll (init_gui\<lparr>top_var := Some 1,
         result_queue := [[((7, ''a''), \<lparr>read_bytes = 50, write_bytes = 30\<rparr>),
                           ((8, ''b''), \<lparr>read_bytes = 1, write_bytes = 0\<rparr>)]]\<rparr>)))
       = Some (slice_to 1 (sort_rows (to_rows
           [((7, ''a''), \<lparr>read_bytes = 50, write_bytes = 30\<rparr>),
            ((8, ''b''), \<lparr>read_bytes = 1, write_bytes = 0\<rparr>)])))
   \<and> length (slice_to 1 (sort_rows (to_rows
           [((7::int, ''a''), \<lparr>read_bytes = 50, write_bytes = 30\<rparr>),
            ((8, ''b''), \<lparr>read_bytes = 1, write_bytes = 0\<rparr>)]))) = 1"
proof -
  let ?its = "[Iteration 0 False [Proc 7 (Some ''a'') (Pio 100 50), Proc 8 (Some ''b'') (Pio 5 5)],
      Iteration 1 False [Proc 7 (Some ''a'') (Pio 150 80), Proc 8 (Some ''b'') (Pio 6 5)],
      Iteration 31 False []]"
  let ?out = "[((7::int, ''a''), \<lparr>read_bytes = 50, write_bytes = 30\<rparr>),
               ((8, ''b''), \<lparr>read_bytes = 1, write_bytes = 0\<rparr>)]"
  let ?g = "init_gui\<lparr>top_var := Some 1, result_queue := [?out]\<rparr>"
  have h1: "run 30 1 1 0 ?its = Some ?out"
    by (simp add: run_def tick_def sample_proc_def init_vars_def Let_def add_read_bytes_def
        add_write_bytes_def missing_def keys_def convert_def default_io_def display_name_def)
  have h2: "result_queue ?g = ?out # []" by simp
  have h3: "top_var ?g = Some 1" by simp
  have h4: "length (slice_to 1 (sort_rows (to_rows ?out))) = 1"
    by (simp add: slice_to_def sort_rows_def to_rows_def)
  note i = result_untruncated_until_display[of 30 1 1 0 ?its _ ?out _ _ _ _ ?g ?out "[]" 1]
  from i h1 have c1: "set (keys ?out)
       = set (delta_identities [] (concat (map process_iter (executed (0 + of_int 30) ?its))))"
    by blast
  from i h2 h3 have c2: "last_result (snd (periodic_poll ?g))
       = Some (slice_to 1 (sort_rows (to_rows ?out)))"
    by blast
  from h1 c1 h2 h3 c2 h4 show ?thesis by blast
qed

text \<open>
  Claim C10 as stated fails for an identity that is read only once in the run: it was
  observed, and the delivered dictionary has no entry for it.
\<close>

theorem once_read_identity_not_delivered:
  "run 30 1 15 0 [Iteration 0 False [Proc 7 (Some ''a'') (Pio 100 50)], Iteration 1 True []] = Some []
   \<and> observed_identities 30
       [Iteration 0 False [Proc 7 (Some ''a'') (Pio 100 50)], Iteration 1 True []] = [(7, ''a'')]
   \<and> \<not> set [(7::int, ''a'')] \<subseteq> set (keys ([] :: SampleResult))"
  by (simp add: run_def tick_def sample_proc_def init_vars_def convert_def
        observed_identities_def executed_def readable_def display_name_def keys_def)

end
